theory Spec2Isabelle
  imports Main
begin

unbundle bit_operations_syntax

section \<open>The PMP checker of \<open>pmp_check.py\<close>\<close>

text \<open>
  Python integers are unbounded, so they are \<open>int\<close> here. On \<open>int\<close>, \<open>AND\<close>, \<open>NOT\<close>,
  \<open>push_bit\<close> and \<open>drop_bit\<close> are the two's complement operations of Python's \<open>&\<close>,
  \<open>~\<close>, \<open><<\<close> and \<open>>>\<close> (the right shift rounds towards minus infinity in both).
\<close>

subsection \<open>\<open>count_trailing_ones\<close>\<close>

text \<open>
  The \<open>while x & 1\<close> loop of \<open>count_trailing_ones\<close>, with the loop variables \<open>x\<close> and
  \<open>count\<close> as arguments. The loop need not end, so the function is partial: \<open>None\<close> stands
  for a run that never returns.
\<close>

partial_function (option) count_trailing_ones_loop :: "int \<Rightarrow> nat \<Rightarrow> nat option" where
  "count_trailing_ones_loop x count =
     (if x AND 1 \<noteq> 0 then count_trailing_ones_loop (drop_bit 1 x) (count + 1)
      else Some count)"

declare count_trailing_ones_loop.simps [code]

definition count_trailing_ones :: "int \<Rightarrow> nat option" where
  "count_trailing_ones x = count_trailing_ones_loop x 0"

subsection \<open>\<open>PMPRegion\<close>\<close>

datatype py_error = IndexError

text \<open>
  The attributes that \<open>PMPRegion.__init__\<close> sets. The index comes from \<open>range(64)\<close> and
  is a natural number; everything else is a Python integer.
\<close>

record PMPRegion =
  index :: nat
  cfg :: int
  addr :: int
  all_pmpaddr :: "int list"
  L :: int
  a :: int
  X :: int
  W :: int
  R :: int

definition PMPRegion_init :: "nat \<Rightarrow> int \<Rightarrow> int \<Rightarrow> int list \<Rightarrow> PMPRegion" where
  "PMPRegion_init i c ad pmpaddrs =
     \<lparr>index = i, cfg = c, addr = ad, all_pmpaddr = pmpaddrs,
      L = drop_bit 7 c AND 1,
      a = drop_bit 5 c AND 3,
      X = drop_bit 4 c AND 1,
      W = drop_bit 3 c AND 1,
      R = drop_bit 2 c AND 1\<rparr>"

text \<open>
  \<open>region_bounds\<close> returns the pair \<open>(lower, upper)\<close>, each component an integer or
  Python's \<open>None\<close>. Around it: \<open>Inl IndexError\<close> when \<open>all_pmpaddr[index - 1]\<close> is out
  of range, and the outer \<open>None\<close> when \<open>count_trailing_ones\<close> never returns.
\<close>

definition region_bounds :: "PMPRegion \<Rightarrow> (py_error + (int option \<times> int option)) option" where
  "region_bounds r =
     (if a r = 0 then Some (Inr (None, None))
      else if a r = 1 then
        (if index r = 0 then Some (Inr (Some 0, Some (push_bit 2 (addr r))))
         else if index r - 1 < length (all_pmpaddr r)
           then Some (Inr (Some (push_bit 2 (all_pmpaddr r ! (index r - 1))),
                           Some (push_bit 2 (addr r))))
           else Some (Inl IndexError))
      else if a r = 2 then
        Some (Inr (Some (push_bit 2 (addr r)), Some (push_bit 2 (addr r) + 4)))
      else if a r = 3 then
        (case count_trailing_ones (addr r) of
           None \<Rightarrow> None
         | Some n \<Rightarrow>
             (let size_b = push_bit (n + 3) 1;
                  lower = push_bit 2 (addr r AND NOT (push_bit n 1 - 1));
                  upper = lower + size_b
              in Some (Inr (Some lower, Some upper))))
      else Some (Inr (None, None)))"

definition matches :: "PMPRegion \<Rightarrow> int \<Rightarrow> (py_error + bool) option" where
  "matches r phys_addr =
     (case region_bounds r of
        None \<Rightarrow> None
      | Some (Inl e) \<Rightarrow> Some (Inl e)
      | Some (Inr (lower, upper)) \<Rightarrow>
          (case lower of
             None \<Rightarrow> Some (Inr False)
           | Some lo \<Rightarrow>
               (case upper of
                  None \<Rightarrow> Some (Inr False)
                | Some up \<Rightarrow> Some (Inr (lo \<le> phys_addr \<and> phys_addr < up)))))"

definition permits :: "PMPRegion \<Rightarrow> string \<Rightarrow> string \<Rightarrow> bool" where
  "permits r op priv_mode =
     (if op = ''R'' \<and> R r \<noteq> 0 then True
      else if op = ''W'' \<and> W r \<noteq> 0 then True
      else if op = ''X'' \<and> X r \<noteq> 0 then True
      else False)"

subsection \<open>\<open>main\<close>\<close>

text \<open>
  What a run of \<open>main\<close> does: it prints one line and returns (\<open>Printed\<close>), prints an
  error message and leaves through \<open>sys.exit(1)\<close> (\<open>Exited\<close>), or an exception escapes
  (\<open>Uncaught\<close>).
\<close>

datatype main_result = Printed string | Exited string | Uncaught py_error

text \<open>The \<open>for region in regions\<close> loop of \<open>main\<close> and the lines after it.\<close>

fun main_loop :: "PMPRegion list \<Rightarrow> int \<Rightarrow> string \<Rightarrow> string \<Rightarrow> bool \<Rightarrow> main_result option" where
  "main_loop [] phys_addr mode operation any_pmp =
     (if any_pmp \<and> (mode = ''S'' \<or> mode = ''U'') then Some (Printed ''Access fault'')
      else Some (Printed ''Access allowed''))"
| "main_loop (region # regions) phys_addr mode operation any_pmp =
     (case matches region phys_addr of
        None \<Rightarrow> None
      | Some (Inl e) \<Rightarrow> Some (Uncaught e)
      | Some (Inr True) \<Rightarrow>
          (if mode = ''M'' \<and> L region = 0 then Some (Printed ''Access allowed'')
           else if permits region operation mode then Some (Printed ''Access allowed'')
           else Some (Printed ''Access fault''))
      | Some (Inr False) \<Rightarrow> main_loop regions phys_addr mode operation any_pmp)"

text \<open>The list comprehension that builds \<open>regions\<close>, one \<open>PMPRegion\<close> for each index in \<open>range(64)\<close>.\<close>

definition regions :: "int list \<Rightarrow> int list \<Rightarrow> PMPRegion list" where
  "regions pmpcfg pmpaddr =
     map (\<lambda>i. PMPRegion_init i (pmpcfg ! i) (pmpaddr ! i) pmpaddr) [0..<64]"

text \<open>
  \<open>main\<close> from the validation of the privilege mode on, with what the lines before have
  parsed as parameters: the two lists \<open>pmpcfg\<close> and \<open>pmpaddr\<close> read from the
  configuration file, the physical address, and the upper-cased mode and operation.
  Building \<open>regions\<close> reads \<open>pmpcfg[i]\<close> and \<open>pmpaddr[i]\<close> for every \<open>i\<close> in
  \<open>range(64)\<close>, which raises on a shorter list (the file check of \<open>main\<close> hands over two
  lists of 64 values).
\<close>

definition main :: "int list \<Rightarrow> int list \<Rightarrow> int \<Rightarrow> string \<Rightarrow> string \<Rightarrow> main_result option" where
  "main pmpcfg pmpaddr phys_addr mode operation =
     (if mode \<notin> set [''M'', ''S'', ''U'']
        then Some (Exited ''Invalid privilege mode. Must be one of 'M', 'S', or 'U'.'')
      else if operation \<notin> set [''R'', ''W'', ''X'']
        then Some (Exited ''Invalid operation. Must be one of 'R', 'W', or 'X'.'')
      else if length pmpcfg < 64 \<or> length pmpaddr < 64 then Some (Uncaught IndexError)
      else
        (let any_pmp = list_ex (\<lambda>c. drop_bit 5 c AND 3 \<noteq> 0) pmpcfg
         in main_loop (regions pmpcfg pmpaddr) phys_addr mode operation any_pmp))"

subsection \<open>The specification's vocabulary\<close>

text \<open>
  The claims speak of an entry's lock bit, permission set and mode, and of the first
  entry whose region contains the address. These definitions follow the specification's
  data model, not the code: the lock is configuration bit 7, the mode is bits 6-5 (OFF
  when both are clear), and the permissions are bits 4-2 (Execute, Write, Read). The
  theorems below compare them with what \<open>main\<close> computes.
\<close>

definition entry_lock :: "int \<Rightarrow> bool" where
  "entry_lock c \<longleftrightarrow> bit c 7"

definition entry_mode_off :: "int \<Rightarrow> bool" where
  "entry_mode_off c \<longleftrightarrow> \<not> bit c 5 \<and> \<not> bit c 6"

definition entry_permissions :: "int \<Rightarrow> string set" where
  "entry_permissions c =
     (if bit c 2 then {''R''} else {}) \<union>
     (if bit c 3 then {''W''} else {}) \<union>
     (if bit c 4 then {''X''} else {})"

text \<open>
  Entry \<open>i\<close> is the first of the 64 entries whose decoded region contains the address:
  its region contains it, and the region of every entry before it is decoded and does not.
\<close>

definition first_match :: "int list \<Rightarrow> int list \<Rightarrow> int \<Rightarrow> nat \<Rightarrow> bool" where
  "first_match pmpcfg pmpaddr phys_addr i \<longleftrightarrow>
     i < 64 \<and>
     matches (regions pmpcfg pmpaddr ! i) phys_addr = Some (Inr True) \<and>
     list_all (\<lambda>j. matches (regions pmpcfg pmpaddr ! j) phys_addr = Some (Inr False)) [0..<i]"

text \<open>No entry's decoded region contains the address.\<close>

definition no_match :: "int list \<Rightarrow> int list \<Rightarrow> int \<Rightarrow> bool" where
  "no_match pmpcfg pmpaddr phys_addr \<longleftrightarrow>
     list_all (\<lambda>j. matches (regions pmpcfg pmpaddr ! j) phys_addr = Some (Inr False)) [0..<64]"

section \<open>Termination of \<open>count_trailing_ones\<close>\<close>

lemma and_one_odd: "(x::int) AND 1 \<noteq> 0 \<longleftrightarrow> odd x"
  by (simp add: and_one_eq odd_iff_mod_2_eq_one)

text \<open>
  On every integer other than \<open>-1\<close> the loop returns, and what it adds to the counter is
  the length of the run of 1-bits that starts at bit 0.
\<close>

lemma count_trailing_ones_loop_returns:
  "x \<noteq> - 1 \<Longrightarrow>
   \<exists>n. count_trailing_ones_loop x c = Some (c + n) \<and> (\<forall>i<n. bit x i) \<and> \<not> bit x n"
proof (induction "nat \<bar>x\<bar>" arbitrary: x c rule: less_induct)
  case less
  show ?case
  proof (cases "odd x")
    case False
    then have "count_trailing_ones_loop x c = Some (c + 0)"
      by (subst count_trailing_ones_loop.simps) (simp add: and_one_odd)
    moreover have "\<not> bit x 0"
      using False by (simp add: bit_0)
    ultimately show ?thesis
      by (intro exI [where x = 0]) simp
  next
    case True
    have smaller: "nat \<bar>x div 2\<bar> < nat \<bar>x\<bar>"
    proof (cases "0 \<le> x")
      case True
      with \<open>odd x\<close> have "0 < x" "0 \<le> x div 2" "x div 2 < x"
        by presburger+
      then show ?thesis by simp
    next
      case False
      with \<open>odd x\<close> less.prems have "x div 2 < 0" "x < x div 2"
        by presburger+
      then show ?thesis by simp
    qed
    have not_m1: "x div 2 \<noteq> - 1"
      using True less.prems by presburger
    from less.hyps [OF smaller not_m1, of "c + 1"] obtain n where
      n: "count_trailing_ones_loop (x div 2) (c + 1) = Some (c + 1 + n)"
         "\<forall>i<n. bit (x div 2) i" "\<not> bit (x div 2) n"
      by blast
    have "count_trailing_ones_loop x c = Some (c + Suc n)"
      using True n(1)
      by (subst count_trailing_ones_loop.simps) (simp add: and_one_odd drop_bit_eq_div)
    moreover have "\<forall>i<Suc n. bit x i"
    proof (intro allI impI)
      fix i assume "i < Suc n"
      then show "bit x i"
        using True n(2) by (cases i) (simp_all add: bit_0 bit_Suc)
    qed
    moreover have "\<not> bit x (Suc n)"
      using n(3) by (simp add: bit_Suc)
    ultimately show ?thesis
      by blast
  qed
qed

text \<open>On \<open>-1\<close> every shift gives \<open>-1\<close> again, whose bit 0 is set: the loop never returns.\<close>

lemma count_trailing_ones_loop_minus_one:
  assumes "count_trailing_ones_loop x c = Some y"
  shows "x \<noteq> - 1"
proof -
  have "(case (x, c) of (x, c) \<Rightarrow> \<lambda>y. x \<noteq> - 1) y"
  proof (rule count_trailing_ones_loop.raw_induct [where P = "\<lambda>x c y. x \<noteq> - 1"])
    show "(case (x, c) of (x, c) \<Rightarrow> count_trailing_ones_loop x c) = Some y"
      using assms by simp
  next
    fix f :: "int \<Rightarrow> nat \<Rightarrow> nat option" and x :: int and count y :: nat
    assume IH: "\<And>x' count' y'. f x' count' = Some y' \<Longrightarrow> x' \<noteq> - 1"
      and step: "(if x AND 1 \<noteq> 0 then f (drop_bit 1 x) (count + 1) else Some count) = Some y"
    show "x \<noteq> - 1"
    proof
      assume "x = - 1"
      with step have "f (- 1) (count + 1) = Some y"
        by simp
      with IH show False
        by blast
    qed
  qed
  then show ?thesis
    by simp
qed

lemma count_trailing_ones_returns:
  "x \<noteq> - 1 \<Longrightarrow>
   \<exists>n. count_trailing_ones x = Some n \<and> (\<forall>i<n. bit x i) \<and> \<not> bit x n"
  using count_trailing_ones_loop_returns [of x 0]
  by (simp add: count_trailing_ones_def)

lemma count_trailing_ones_None_iff: "count_trailing_ones x = None \<longleftrightarrow> x = - 1"
proof
  assume "count_trailing_ones x = None"
  then show "x = - 1"
    using count_trailing_ones_returns [of x] by auto
next
  assume "x = - 1"
  then show "count_trailing_ones x = None"
    using count_trailing_ones_loop_minus_one [of x 0]
    by (cases "count_trailing_ones x") (auto simp: count_trailing_ones_def)
qed

text \<open>
  Claim C10, as amended. \<open>count_trailing_ones\<close> returns on every non-negative integer.
  It does not run forever on every negative input, though: the loop tests bit 0, not
  whether \<open>x\<close> has reached zero, so it returns on every integer other than \<open>-1\<close>, and
  \<open>-1\<close> is the one input on which it never returns.
\<close>

theorem count_trailing_ones_terminates:
  "(0 \<le> x \<longrightarrow> (\<exists>n. count_trailing_ones x = Some n)) \<and>
   (count_trailing_ones x = None \<longleftrightarrow> x = - 1)"
proof -
  have "\<exists>n. count_trailing_ones x = Some n" if "0 \<le> x"
    using count_trailing_ones_returns [of x] that by auto
  then show ?thesis
    by (simp add: count_trailing_ones_None_iff)
qed

theorem count_trailing_ones_terminates_witness:
  "(0::int) \<le> 5 \<and> (\<exists>n. count_trailing_ones 5 = Some n) \<and> count_trailing_ones 5 \<noteq> None"
  using count_trailing_ones_terminates [of 5] by simp

text \<open>
  Claim C10 as it is written fails at the negative input \<open>-2\<close>: bit 0 of \<open>-2\<close> is clear,
  the loop body never runs and the function returns 0.
\<close>

theorem count_trailing_ones_negative_counterexample:
  "(- 2 :: int) < 0 \<and> count_trailing_ones (- 2) = Some 0"
  by (simp add: count_trailing_ones_def count_trailing_ones_loop.simps)

section \<open>Decoding NAPOT regions\<close>

lemma napot_mask: "push_bit n (1::int) - 1 = mask n"
  by (simp add: push_bit_of_1 mask_eq_exp_minus_1)

lemma napot_mask_bits:
  "bit ((x::int) AND NOT (mask n)) i \<longleftrightarrow> n \<le> i \<and> bit x i"
  by (auto simp add: bit_and_iff bit_not_iff bit_mask_iff)

lemma bit_push_drop: "bit (push_bit m (drop_bit m (x::int))) i \<longleftrightarrow> m \<le> i \<and> bit x i"
  by (auto simp add: bit_push_bit_iff bit_drop_bit_eq)

lemma napot_mask_aligned:
  assumes "\<not> bit (x::int) n"
  shows "x AND NOT (mask n) = push_bit (n + 1) (drop_bit (n + 1) x)"
proof (rule bit_eqI)
  fix i
  have "n \<le> i \<and> bit x i \<longleftrightarrow> n + 1 \<le> i \<and> bit x i"
    using assms by (cases "i = n") auto
  then show "bit (x AND NOT (mask n)) i = bit (push_bit (n + 1) (drop_bit (n + 1) x)) i"
    by (simp only: napot_mask_bits bit_push_drop)
qed

lemma napot_lower_dvd:
  assumes "\<not> bit (x::int) n"
  shows "2 ^ (n + 3) dvd push_bit 2 (x AND NOT (mask n))"
proof -
  have "push_bit 2 (x AND NOT (mask n)) = push_bit (2 + (n + 1)) (drop_bit (n + 1) x)"
    by (simp only: napot_mask_aligned [OF assms] push_bit_push_bit)
  also have "2 + (n + 1) = n + 3"
    by simp
  finally show ?thesis
    by (simp only: push_bit_eq_mult dvd_triv_right)
qed

lemma region_bounds_napot:
  assumes "a r = 3" and "count_trailing_ones (addr r) = Some n"
  shows "region_bounds r =
    Some (Inr (Some (push_bit 2 (addr r AND NOT (mask n))),
               Some (push_bit 2 (addr r AND NOT (mask n)) + 2 ^ (n + 3))))"
  using assms by (simp add: region_bounds_def Let_def flip: mask_eq_exp_minus_1)

lemma matches_bounds:
  "region_bounds r = Some (Inr (Some lo, Some up)) \<Longrightarrow>
   matches r pa = Some (Inr (lo \<le> pa \<and> pa < up))"
  by (simp add: matches_def)

lemma matches_no_region:
  "region_bounds r = Some (Inr (None, None)) \<Longrightarrow> matches r pa = Some (Inr False)"
  by (simp add: matches_def)

text \<open>
  Claim C5. For an entry in NAPOT mode whose raw address is \<open>rawAddr\<close>, let \<open>n\<close> be the
  length of the run of 1-bits of \<open>rawAddr\<close> that starts at bit 0 (bits \<open>0..n-1\<close> set, bit
  \<open>n\<close> clear) and \<open>base\<close> be \<open>rawAddr\<close> with its low \<open>n\<close> bits cleared. The decoded
  region is the half-open byte interval that starts at \<open>base << 2\<close> and is \<open>2^(n+3)\<close> bytes
  long; \<open>rawAddr = 0\<close> decodes to \<open>[0, 8)\<close>. This holds for every raw address on which
  \<open>count_trailing_ones\<close> returns, that is every one but \<open>-1\<close>, so for every value of an
  unsigned address register.
\<close>

theorem napot_decoding:
  assumes "a r = 3" and "addr r \<noteq> - 1"
  shows "(\<exists>n base.
           (\<forall>i<n. bit (addr r) i) \<and> \<not> bit (addr r) n \<and>
           (\<forall>i. bit base i \<longleftrightarrow> n \<le> i \<and> bit (addr r) i) \<and>
           region_bounds r = Some (Inr (Some (push_bit 2 base), Some (push_bit 2 base + 2 ^ (n + 3)))) \<and>
           (\<forall>pa. matches r pa = Some (Inr (push_bit 2 base \<le> pa \<and> pa < push_bit 2 base + 2 ^ (n + 3))))) \<and>
         (addr r = 0 \<longrightarrow> region_bounds r = Some (Inr (Some 0, Some 8)))"
proof
  from count_trailing_ones_returns [OF assms(2)] obtain n where
    n: "count_trailing_ones (addr r) = Some n" "\<forall>i<n. bit (addr r) i" "\<not> bit (addr r) n"
    by blast
  define base where "base = addr r AND NOT (mask n)"
  have bounds: "region_bounds r =
      Some (Inr (Some (push_bit 2 base), Some (push_bit 2 base + 2 ^ (n + 3))))"
    unfolding base_def by (rule region_bounds_napot [OF assms(1) n(1)])
  have "\<forall>i. bit base i \<longleftrightarrow> n \<le> i \<and> bit (addr r) i"
    by (simp add: base_def napot_mask_bits)
  moreover have "\<forall>pa. matches r pa =
      Some (Inr (push_bit 2 base \<le> pa \<and> pa < push_bit 2 base + 2 ^ (n + 3)))"
    using matches_bounds [OF bounds] by blast
  ultimately show "\<exists>n base.
      (\<forall>i<n. bit (addr r) i) \<and> \<not> bit (addr r) n \<and>
      (\<forall>i. bit base i \<longleftrightarrow> n \<le> i \<and> bit (addr r) i) \<and>
      region_bounds r = Some (Inr (Some (push_bit 2 base), Some (push_bit 2 base + 2 ^ (n + 3)))) \<and>
      (\<forall>pa. matches r pa = Some (Inr (push_bit 2 base \<le> pa \<and> pa < push_bit 2 base + 2 ^ (n + 3))))"
    using n(2,3) bounds by blast
next
  show "addr r = 0 \<longrightarrow> region_bounds r = Some (Inr (Some 0, Some 8))"
  proof
    assume zero: "addr r = 0"
    have "count_trailing_ones (addr r) = Some 0"
      by (simp add: zero count_trailing_ones_def count_trailing_ones_loop.simps)
    from region_bounds_napot [OF assms(1) this] show "region_bounds r = Some (Inr (Some 0, Some 8))"
      by (simp add: zero)
  qed
qed

theorem napot_decoding_witness:
  "a (PMPRegion_init 0 0x6C 0x401 []) = 3 \<and> addr (PMPRegion_init 0 0x6C 0x401 []) \<noteq> - 1 \<and>
   (\<exists>n base.
      (\<forall>i<n. bit (addr (PMPRegion_init 0 0x6C 0x401 [])) i) \<and>
      \<not> bit (addr (PMPRegion_init 0 0x6C 0x401 [])) n \<and>
      (\<forall>i. bit base i \<longleftrightarrow> n \<le> i \<and> bit (addr (PMPRegion_init 0 0x6C 0x401 [])) i) \<and>
      region_bounds (PMPRegion_init 0 0x6C 0x401 []) =
        Some (Inr (Some (push_bit 2 base), Some (push_bit 2 base + 2 ^ (n + 3)))))"
proof -
  have h1: "a (PMPRegion_init 0 0x6C 0x401 []) = 3"
    by (simp add: PMPRegion_init_def)
  have h2: "addr (PMPRegion_init 0 0x6C 0x401 []) \<noteq> - 1"
    by (simp add: PMPRegion_init_def)
  from napot_decoding [OF h1 h2] h1 h2 show ?thesis
    by blast
qed

text \<open>
  Claim C9. For every non-negative raw address the NAPOT region is naturally aligned:
  with \<open>n\<close> the length of the trailing run of 1-bits, bit \<open>n\<close> of the raw address is 0,
  so the raw address with its low \<open>n\<close> bits cleared is a multiple of \<open>2^(n+1)\<close>, and the
  lower byte bound is a multiple of the region's size \<open>2^(n+3)\<close>.
\<close>

theorem napot_naturally_aligned:
  assumes "a r = 3" and "0 \<le> addr r"
  shows "\<exists>n lower.
           (\<forall>i<n. bit (addr r) i) \<and> \<not> bit (addr r) n \<and>
           2 ^ (n + 1) dvd (addr r AND NOT (push_bit n 1 - 1)) \<and>
           region_bounds r = Some (Inr (Some lower, Some (lower + 2 ^ (n + 3)))) \<and>
           2 ^ (n + 3) dvd lower"
proof -
  from assms(2) have "addr r \<noteq> - 1"
    by auto
  from count_trailing_ones_returns [OF this] obtain n where
    n: "count_trailing_ones (addr r) = Some n" "\<forall>i<n. bit (addr r) i" "\<not> bit (addr r) n"
    by blast
  have "2 ^ (n + 1) dvd (addr r AND NOT (mask n))"
    by (simp only: napot_mask_aligned [OF n(3)] push_bit_eq_mult dvd_triv_right)
  then have "2 ^ (n + 1) dvd (addr r AND NOT (push_bit n 1 - 1))"
    by (simp only: napot_mask)
  with n(2,3) region_bounds_napot [OF assms(1) n(1)] napot_lower_dvd [OF n(3)]
  show ?thesis
    by blast
qed

theorem napot_naturally_aligned_witness:
  "a (PMPRegion_init 0 0x6C 0x401 []) = 3 \<and> 0 \<le> addr (PMPRegion_init 0 0x6C 0x401 []) \<and>
   (\<exists>n lower.
      region_bounds (PMPRegion_init 0 0x6C 0x401 []) =
        Some (Inr (Some lower, Some (lower + 2 ^ (n + 3)))) \<and>
      2 ^ (n + 3) dvd lower)"
proof -
  have h1: "a (PMPRegion_init 0 0x6C 0x401 []) = 3"
    by (simp add: PMPRegion_init_def)
  have h2: "0 \<le> addr (PMPRegion_init 0 0x6C 0x401 [])"
    by (simp add: PMPRegion_init_def)
  from napot_naturally_aligned [OF h1 h2] h1 h2 show ?thesis
    by blast
qed

lemma dvd_bit_low:
  assumes "2 ^ k dvd (B::int)" and "bit B j"
  shows "k \<le> j"
proof -
  from assms(1) obtain q where "B = push_bit k q"
    by (auto simp add: push_bit_eq_mult mult.commute elim: dvdE)
  with assms(2) show ?thesis
    by (simp add: bit_push_bit_iff)
qed

lemma napot_canonical_bits:
  "bit (drop_bit 2 (B::int) OR (2 ^ (m + 3) div 8 - 1)) i \<longleftrightarrow> bit B (i + 2) \<or> i < m"
proof -
  have "(2::int) ^ (m + 3) div 8 - 1 = mask m"
    by (simp add: power_add mask_eq_exp_minus_1)
  then show ?thesis
    by (simp add: bit_or_iff bit_drop_bit_eq bit_mask_iff add.commute)
qed

text \<open>
  Claim C7, as amended. For every size \<open>S = 2^k\<close> with \<open>k \<ge> 3\<close> and every base \<open>B\<close> that is
  a multiple of \<open>S\<close> (a naturally aligned base, not merely an 8-byte-aligned one), decoding
  the canonical NAPOT raw address \<open>(B >> 2) | (S/8 - 1)\<close> gives back exactly \<open>[B, B + S)\<close>.
  Python's integers are unbounded, so there is no upper limit on \<open>k\<close>.
\<close>

theorem napot_round_trip:
  assumes "a r = 3" and "3 \<le> k" and "2 ^ k dvd B"
    and "addr r = drop_bit 2 B OR (2 ^ k div 8 - 1)"
  shows "region_bounds r = Some (Inr (Some B, Some (B + 2 ^ k)))"
proof -
  from assms(2) obtain m where k: "k = m + 3"
    by (metis le_add_diff_inverse2)
  have raw_bits: "bit (addr r) i \<longleftrightarrow> bit B (i + 2) \<or> i < m" for i
    unfolding assms(4) k by (rule napot_canonical_bits)
  have B_bits: "k \<le> j" if "bit B j" for j
    using dvd_bit_low [OF assms(3) that] .
  have not_m: "\<not> bit (addr r) m"
    using B_bits [of "m + 2"] by (auto simp add: raw_bits k)
  then have "addr r \<noteq> - 1"
    by auto
  from count_trailing_ones_returns [OF this] obtain n where
    n: "count_trailing_ones (addr r) = Some n" "\<forall>i<n. bit (addr r) i" "\<not> bit (addr r) n"
    by blast
  have "n = m"
  proof (rule ccontr)
    assume "n \<noteq> m"
    then consider "n < m" | "m < n"
      by arith
    then show False
    proof cases
      case 1
      with n(3) show False by (simp add: raw_bits)
    next
      case 2
      with n(2) not_m show False by blast
    qed
  qed
  have "addr r AND NOT (mask m) = drop_bit 2 B"
  proof (rule bit_eqI)
    fix i
    have "bit B (i + 2) \<Longrightarrow> m \<le> i"
      using B_bits [of "i + 2"] by (simp add: k)
    then show "bit (addr r AND NOT (mask m)) i = bit (drop_bit 2 B) i"
      by (auto simp add: napot_mask_bits raw_bits bit_drop_bit_eq add.commute)
  qed
  moreover have "push_bit 2 (drop_bit 2 B) = B"
  proof (rule bit_eqI)
    fix i
    have "bit B i \<Longrightarrow> 2 \<le> i"
      using B_bits [of i] by (simp add: k)
    then show "bit (push_bit 2 (drop_bit 2 B)) i = bit B i"
      unfolding bit_push_drop by blast
  qed
  ultimately have "push_bit 2 (addr r AND NOT (mask m)) = B"
    by simp
  with region_bounds_napot [OF assms(1) n(1)] \<open>n = m\<close> show ?thesis
    by (simp add: k)
qed

theorem napot_round_trip_witness:
  "a (PMPRegion_init 0 0x6C (drop_bit 2 0x1000 OR (2 ^ 4 div 8 - 1)) []) = 3 \<and> (3::nat) \<le> 4 \<and>
   (2::int) ^ 4 dvd 0x1000 \<and>
   region_bounds (PMPRegion_init 0 0x6C (drop_bit 2 0x1000 OR (2 ^ 4 div 8 - 1)) []) =
     Some (Inr (Some 0x1000, Some 0x1010))"
proof -
  have h1: "a (PMPRegion_init 0 0x6C (drop_bit 2 0x1000 OR (2 ^ 4 div 8 - 1)) []) = 3"
    by (simp add: PMPRegion_init_def)
  have h2: "(3::nat) \<le> 4"
    by simp
  have h3: "(2::int) ^ 4 dvd 0x1000"
    by simp
  have h4: "addr (PMPRegion_init 0 0x6C (drop_bit 2 0x1000 OR (2 ^ 4 div 8 - 1)) []) =
      drop_bit 2 0x1000 OR (2 ^ 4 div 8 - 1)"
    by (simp add: PMPRegion_init_def)
  from napot_round_trip [OF h1 h2 h3 h4] h1 h2 h3 show ?thesis
    by simp
qed

text \<open>
  Claim C7 as it is written fails for the 8-byte-aligned base \<open>B = 8\<close> and the size
  \<open>S = 2^4 = 16\<close>: the canonical raw address is \<open>2 | 1 = 3\<close>, which has two trailing
  ones and decodes to \<open>[0, 32)\<close>, not to \<open>[8, 24)\<close>.
\<close>

theorem napot_round_trip_counterexample:
  "(8::int) mod 8 = 0 \<and> (3::nat) \<le> 4 \<and>
   region_bounds (PMPRegion_init 0 0x60 (drop_bit 2 8 OR (2 ^ 4 div 8 - 1)) []) =
     Some (Inr (Some 0, Some 32)) \<and>
   region_bounds (PMPRegion_init 0 0x60 (drop_bit 2 8 OR (2 ^ 4 div 8 - 1)) []) \<noteq>
     Some (Inr (Some 8, Some (8 + 2 ^ 4)))"
  by (simp add: region_bounds_def PMPRegion_init_def count_trailing_ones_def
      count_trailing_ones_loop.simps)

section \<open>Decoding TOR regions\<close>

lemma matches_tor:
  assumes "a r = 1" and "index r \<le> length (all_pmpaddr r)"
  shows "region_bounds r =
      Some (Inr (Some (if index r = 0 then 0 else push_bit 2 (all_pmpaddr r ! (index r - 1))),
                 Some (push_bit 2 (addr r))))"
  using assms by (auto simp add: region_bounds_def)

text \<open>
  Claim C6. An entry in TOR mode at index 0 with raw address \<open>a\<close> decodes to
  \<open>[0, a << 2)\<close>; at an index \<open>i > 0\<close>, with \<open>p\<close> the raw address of entry \<open>i - 1\<close>, it
  decodes to \<open>[p << 2, a << 2)\<close>, and when \<open>a << 2 \<le> p << 2\<close> the region is empty:
  \<open>matches\<close> returns \<open>False\<close> for every address and raises nothing. The index lies within
  the list of address registers, as it does for each of the 64 regions that \<open>main\<close> builds.
\<close>

theorem tor_decoding:
  assumes "a r = 1" and "index r \<le> length (all_pmpaddr r)"
  shows "(index r = 0 \<longrightarrow>
            region_bounds r = Some (Inr (Some 0, Some (push_bit 2 (addr r)))) \<and>
            matches r pa = Some (Inr (0 \<le> pa \<and> pa < push_bit 2 (addr r)))) \<and>
         (0 < index r \<longrightarrow>
            region_bounds r =
              Some (Inr (Some (push_bit 2 (all_pmpaddr r ! (index r - 1))),
                         Some (push_bit 2 (addr r)))) \<and>
            matches r pa =
              Some (Inr (push_bit 2 (all_pmpaddr r ! (index r - 1)) \<le> pa \<and>
                         pa < push_bit 2 (addr r))) \<and>
            (push_bit 2 (addr r) \<le> push_bit 2 (all_pmpaddr r ! (index r - 1)) \<longrightarrow>
               matches r pa = Some (Inr False)))"
proof (cases "index r = 0")
  case True
  with assms show ?thesis
    by (simp add: region_bounds_def matches_def)
next
  case False
  with assms have "index r - 1 < length (all_pmpaddr r)"
    by arith
  with False assms(1) show ?thesis
    by (auto simp add: region_bounds_def matches_def)
qed

theorem tor_decoding_witness:
  "a (PMPRegion_init 1 0x28 0x100 [0x400, 0x100]) = 1 \<and>
   index (PMPRegion_init 1 0x28 0x100 [0x400, 0x100]) \<le>
     length (all_pmpaddr (PMPRegion_init 1 0x28 0x100 [0x400, 0x100])) \<and>
   region_bounds (PMPRegion_init 1 0x28 0x100 [0x400, 0x100]) =
     Some (Inr (Some 0x1000, Some 0x400)) \<and>
   matches (PMPRegion_init 1 0x28 0x100 [0x400, 0x100]) 0x800 = Some (Inr False)"
proof -
  have h1: "a (PMPRegion_init 1 0x28 0x100 [0x400, 0x100]) = 1"
    by (simp add: PMPRegion_init_def)
  have h2: "index (PMPRegion_init 1 0x28 0x100 [0x400, 0x100]) \<le>
      length (all_pmpaddr (PMPRegion_init 1 0x28 0x100 [0x400, 0x100]))"
    by (simp add: PMPRegion_init_def)
  from tor_decoding [OF h1 h2, of "0x800"] h1 h2 show ?thesis
    by (simp add: PMPRegion_init_def)
qed


section \<open>Configuration bits\<close>

lemma drop_bit_and_one: "drop_bit k (c::int) AND 1 \<noteq> 0 \<longleftrightarrow> bit c k"
  by (simp add: and_one_eq bit_iff_odd_drop_bit odd_iff_mod_2_eq_one)

lemma drop_bit_and_three: "drop_bit 5 (c::int) AND 3 \<noteq> 0 \<longleftrightarrow> bit c 5 \<or> bit c 6"
proof -
  have three: "(3::int) = mask 2"
    by (simp add: mask_eq_exp_minus_1)
  have "drop_bit 5 c AND 3 = 0 \<longleftrightarrow> (\<forall>i<2. \<not> bit c (5 + i))"
    unfolding three by (auto simp add: bit_eq_iff bit_and_iff bit_mask_iff bit_drop_bit_eq)
  also have "\<dots> \<longleftrightarrow> \<not> bit c 5 \<and> \<not> bit c 6"
    by (auto simp add: less_2_cases_iff)
  finally show ?thesis
    by blast
qed

lemma a_init_range: "a (PMPRegion_init i c ad l) \<in> {0, 1, 2, 3}"
proof -
  have three: "(3::int) = mask 2"
    by (simp add: mask_eq_exp_minus_1)
  have "drop_bit 5 c AND 3 = take_bit 2 (drop_bit 5 c)"
    unfolding three by (simp add: take_bit_eq_mask)
  moreover have "0 \<le> take_bit 2 (drop_bit 5 c)" "take_bit 2 (drop_bit 5 c) < 2 ^ 2"
    by (rule take_bit_nonnegative, rule take_bit_int_less_exp)
  ultimately have "0 \<le> drop_bit 5 c AND 3" "drop_bit 5 c AND 3 < 4"
    by simp_all
  then have "drop_bit 5 c AND 3 = 0 \<or> drop_bit 5 c AND 3 = 1 \<or>
      drop_bit 5 c AND 3 = 2 \<or> drop_bit 5 c AND 3 = 3"
    by arith
  then show ?thesis
    by (simp add: PMPRegion_init_def)
qed


section \<open>Mode values outside the 2-bit field\<close>

text \<open>
  Claim C8, as amended. \<open>__init__\<close> masks the mode field with \<open>0x3\<close>, so the mode of a
  constructed region always lies in \<open>{0, 1, 2, 3}\<close>. For a mode outside that set
  \<open>region_bounds\<close> does not raise: its last branch returns \<open>(None, None)\<close>, as for OFF, and
  \<open>matches\<close> returns \<open>False\<close>.
\<close>

theorem reserved_mode_no_region:
  "(a r \<notin> {0, 1, 2, 3} \<longrightarrow>
      region_bounds r = Some (Inr (None, None)) \<and> matches r pa = Some (Inr False)) \<and>
   a (PMPRegion_init i c ad pmpaddrs) \<in> {0, 1, 2, 3}"
  by (simp add: a_init_range [simplified] region_bounds_def matches_def)

theorem reserved_mode_no_region_witness:
  "a \<lparr>index = 0, cfg = 0, addr = 0, all_pmpaddr = [], L = 0, a = 4, X = 0, W = 0, R = 0\<rparr>
     \<notin> {0, 1, 2, 3} \<and>
   matches \<lparr>index = 0, cfg = 0, addr = 0, all_pmpaddr = [], L = 0, a = 4, X = 0, W = 0, R = 0\<rparr> 0
     = Some (Inr False)"
  using reserved_mode_no_region
    [of "\<lparr>index = 0, cfg = 0, addr = 0, all_pmpaddr = [], L = 0, a = 4, X = 0, W = 0, R = 0\<rparr>" 0]
  by simp

text \<open>
  Claim C8 as it is written fails on a region whose mode field is 4: \<open>region_bounds\<close>
  returns \<open>(None, None)\<close>, the very result it gives for the mode OFF, and no error.
\<close>

theorem reserved_mode_counterexample:
  "a \<lparr>index = 0, cfg = 0, addr = 0, all_pmpaddr = [], L = 0, a = 4, X = 0, W = 0, R = 0\<rparr>
     \<notin> {0, 1, 2, 3} \<and>
   region_bounds \<lparr>index = 0, cfg = 0, addr = 0, all_pmpaddr = [], L = 0, a = 4, X = 0, W = 0, R = 0\<rparr>
     = Some (Inr (None, None)) \<and>
   region_bounds \<lparr>index = 0, cfg = 0, addr = 0, all_pmpaddr = [], L = 0, a = 4, X = 0, W = 0, R = 0\<rparr>
     = region_bounds \<lparr>index = 0, cfg = 0, addr = 0, all_pmpaddr = [], L = 0, a = 0, X = 0, W = 0, R = 0\<rparr>"
  by (simp add: region_bounds_def)

section \<open>The decision of \<open>main\<close>\<close>

lemma main_loop_first_match:
  assumes "i < length rs"
    and "\<forall>j<i. matches (rs ! j) pa = Some (Inr False)"
    and "matches (rs ! i) pa = Some (Inr True)"
  shows "main_loop rs pa mode operation any_pmp =
    (if mode = ''M'' \<and> L (rs ! i) = 0 then Some (Printed ''Access allowed'')
     else if permits (rs ! i) operation mode then Some (Printed ''Access allowed'')
     else Some (Printed ''Access fault''))"
  using assms
proof (induction rs arbitrary: i)
  case Nil
  then show ?case by simp
next
  case (Cons r rs)
  show ?case
  proof (cases i)
    case 0
    with Cons.prems(3) show ?thesis
      by simp
  next
    case (Suc k)
    from Cons.prems(2) Suc have head: "matches r pa = Some (Inr False)"
      by auto
    from Cons.prems(2) Suc have "\<forall>j<k. matches (rs ! j) pa = Some (Inr False)"
      by auto
    moreover from Cons.prems(1,3) Suc have "k < length rs" "matches (rs ! k) pa = Some (Inr True)"
      by auto
    ultimately show ?thesis
      using Cons.IH [of k] head Suc by simp
  qed
qed

lemma main_loop_no_match:
  assumes "\<forall>r\<in>set rs. matches r pa = Some (Inr False)"
  shows "main_loop rs pa mode operation any_pmp =
    (if any_pmp \<and> (mode = ''S'' \<or> mode = ''U'') then Some (Printed ''Access fault'')
     else Some (Printed ''Access allowed''))"
  using assms by (induction rs) simp_all

lemma regions_length: "length (regions pmpcfg pmpaddr) = 64"
  by (simp add: regions_def)

lemma regions_nth:
  "i < 64 \<Longrightarrow> regions pmpcfg pmpaddr ! i = PMPRegion_init i (pmpcfg ! i) (pmpaddr ! i) pmpaddr"
  by (simp add: regions_def)

lemma L_init: "L (PMPRegion_init i c ad l) = 0 \<longleftrightarrow> \<not> entry_lock c"
  using drop_bit_and_one [of 7 c] by (auto simp add: PMPRegion_init_def entry_lock_def)

lemma permits_init:
  assumes "operation \<in> {''R'', ''W'', ''X''}"
  shows "permits (PMPRegion_init i c ad l) operation mode \<longleftrightarrow> operation \<in> entry_permissions c"
  using assms drop_bit_and_one [of 2 c] drop_bit_and_one [of 3 c] drop_bit_and_one [of 4 c]
  by (auto simp add: permits_def PMPRegion_init_def entry_permissions_def)

lemma main_first_match:
  assumes "length pmpcfg = 64" and "length pmpaddr = 64"
    and "mode \<in> {''M'', ''S'', ''U''}" and "operation \<in> {''R'', ''W'', ''X''}"
    and "first_match pmpcfg pmpaddr phys_addr i"
  shows "main pmpcfg pmpaddr phys_addr mode operation =
    Some (Printed (if mode = ''M'' \<and> \<not> entry_lock (pmpcfg ! i) then ''Access allowed''
                   else if operation \<in> entry_permissions (pmpcfg ! i) then ''Access allowed''
                   else ''Access fault''))"
proof -
  from assms(5) have i: "i < 64"
    and hit: "matches (regions pmpcfg pmpaddr ! i) phys_addr = Some (Inr True)"
    and miss: "\<forall>j<i. matches (regions pmpcfg pmpaddr ! j) phys_addr = Some (Inr False)"
    by (simp_all add: first_match_def list_all_iff)
  from i have "i < length (regions pmpcfg pmpaddr)"
    by (simp add: regions_length)
  from main_loop_first_match [OF this miss hit]
  have "main_loop (regions pmpcfg pmpaddr) phys_addr mode operation any_pmp =
    (if mode = ''M'' \<and> \<not> entry_lock (pmpcfg ! i) then Some (Printed ''Access allowed'')
     else if operation \<in> entry_permissions (pmpcfg ! i) then Some (Printed ''Access allowed'')
     else Some (Printed ''Access fault''))" for any_pmp
    by (simp only: regions_nth [OF i] L_init permits_init [OF assms(4)])
  with assms(1-4) show ?thesis
    by (simp add: main_def)
qed

lemma main_no_match:
  assumes "length pmpcfg = 64" and "length pmpaddr = 64"
    and "mode \<in> {''M'', ''S'', ''U''}" and "operation \<in> {''R'', ''W'', ''X''}"
    and "no_match pmpcfg pmpaddr phys_addr"
  shows "main pmpcfg pmpaddr phys_addr mode operation =
    Some (Printed (if (mode = ''S'' \<or> mode = ''U'') \<and> (\<exists>j<64. \<not> entry_mode_off (pmpcfg ! j))
                   then ''Access fault'' else ''Access allowed''))"
proof -
  have "\<forall>r\<in>set (regions pmpcfg pmpaddr). matches r phys_addr = Some (Inr False)"
  proof
    fix r assume "r \<in> set (regions pmpcfg pmpaddr)"
    then obtain j where "j < 64" "r = regions pmpcfg pmpaddr ! j"
      by (auto simp add: in_set_conv_nth regions_length)
    with assms(5) show "matches r phys_addr = Some (Inr False)"
      by (simp add: no_match_def list_all_iff)
  qed
  note loop = main_loop_no_match [OF this]
  have "list_ex (\<lambda>c. drop_bit 5 c AND 3 \<noteq> 0) pmpcfg \<longleftrightarrow> (\<exists>j<64. \<not> entry_mode_off (pmpcfg ! j))"
    unfolding list_ex_iff drop_bit_and_three entry_mode_off_def set_conv_nth assms(1)
    by blast
  with assms(1-4) show ?thesis
    by (auto simp add: main_def loop)
qed

text \<open>
  Claim C1. Take two runs of \<open>main\<close> on 64-entry configurations, each with a first
  matching entry. If the two first matching entries have the same lock bit and the same
  permission bits, the two runs print the same decision, whatever the other entries, the
  indices and the addresses are: the decision depends on nothing but the lock and
  permission bits of the first matching entry (and on the request's mode and operation).
  Nothing is assumed of the entries after the first match; they may contain the address
  as well.
\<close>

theorem first_match_wins:
  assumes "length pmpcfg = 64" and "length pmpaddr = 64"
    and "length pmpcfg' = 64" and "length pmpaddr' = 64"
    and "mode \<in> {''M'', ''S'', ''U''}" and "operation \<in> {''R'', ''W'', ''X''}"
    and "first_match pmpcfg pmpaddr phys_addr i"
    and "first_match pmpcfg' pmpaddr' phys_addr' i'"
    and "entry_lock (pmpcfg ! i) = entry_lock (pmpcfg' ! i')"
    and "entry_permissions (pmpcfg ! i) = entry_permissions (pmpcfg' ! i')"
  shows "main pmpcfg pmpaddr phys_addr mode operation =
           main pmpcfg' pmpaddr' phys_addr' mode operation \<and>
         main pmpcfg pmpaddr phys_addr mode operation \<in>
           {Some (Printed ''Access allowed''), Some (Printed ''Access fault'')}"
proof -
  note one = main_first_match [OF assms(1,2,5,6,7)]
  note two = main_first_match [OF assms(3,4,5,6,8)]
  have "main pmpcfg pmpaddr phys_addr mode operation =
      main pmpcfg' pmpaddr' phys_addr' mode operation"
    unfolding one two assms(9,10) ..
  moreover have "main pmpcfg pmpaddr phys_addr mode operation \<in>
      {Some (Printed ''Access allowed''), Some (Printed ''Access fault'')}"
    unfolding one by simp
  ultimately show ?thesis ..
qed

theorem first_match_wins_witness:
  "first_match (0 # 0x6C # 0xB0 # replicate 61 0) (0 # 0x401 # 0x1000 # replicate 61 0) 0x1004 1 \<and>
   first_match (0x6C # replicate 63 0) (0x401 # replicate 63 0) 0x1004 0 \<and>
   matches (regions (0 # 0x6C # 0xB0 # replicate 61 0) (0 # 0x401 # 0x1000 # replicate 61 0) ! 2)
     0x1004 = Some (Inr True) \<and>
   main (0 # 0x6C # 0xB0 # replicate 61 0) (0 # 0x401 # 0x1000 # replicate 61 0) 0x1004 ''S'' ''X'' =
     main (0x6C # replicate 63 0) (0x401 # replicate 63 0) 0x1004 ''S'' ''X''"
proof -
  have h1: "length ((0::int) # 0x6C # 0xB0 # replicate 61 0) = 64"
    and h2: "length ((0::int) # 0x401 # 0x1000 # replicate 61 0) = 64"
    and h3: "length ((0x6C::int) # replicate 63 0) = 64"
    and h4: "length ((0x401::int) # replicate 63 0) = 64"
    by simp_all
  have h5: "''S'' \<in> {''M'', ''S'', ''U''}" and h6: "''X'' \<in> {''R'', ''W'', ''X''}"
    by simp_all
  have h7: "first_match (0 # 0x6C # 0xB0 # replicate 61 0) (0 # 0x401 # 0x1000 # replicate 61 0)
      0x1004 1"
    by (simp add: first_match_def regions_def PMPRegion_init_def matches_def region_bounds_def
        count_trailing_ones_def count_trailing_ones_loop.simps)
  have h8: "first_match (0x6C # replicate 63 0) (0x401 # replicate 63 0) 0x1004 0"
    by (simp add: first_match_def regions_def PMPRegion_init_def matches_def region_bounds_def
        count_trailing_ones_def count_trailing_ones_loop.simps)
  have h9: "entry_lock (((0::int) # 0x6C # 0xB0 # replicate 61 0) ! 1) =
      entry_lock (((0x6C::int) # replicate 63 0) ! 0)"
    and h10: "entry_permissions (((0::int) # 0x6C # 0xB0 # replicate 61 0) ! 1) =
      entry_permissions (((0x6C::int) # replicate 63 0) ! 0)"
    by simp_all
  have later: "matches (regions (0 # 0x6C # 0xB0 # replicate 61 0)
      (0 # 0x401 # 0x1000 # replicate 61 0) ! 2) 0x1004 = Some (Inr True)"
    by (simp add: regions_def PMPRegion_init_def matches_def region_bounds_def)
  from first_match_wins [OF h1 h2 h3 h4 h5 h6 h7 h8 h9 h10] h7 h8 later show ?thesis
    by blast
qed

text \<open>
  Claim C2. In Machine mode, when the first entry whose region contains the address has
  its lock bit clear, the access is allowed, whatever that entry's permission bits are.
\<close>

theorem machine_mode_bypass:
  assumes "length pmpcfg = 64" and "length pmpaddr = 64"
    and "operation \<in> {''R'', ''W'', ''X''}"
    and "first_match pmpcfg pmpaddr phys_addr i"
    and "\<not> entry_lock (pmpcfg ! i)"
  shows "main pmpcfg pmpaddr phys_addr ''M'' operation = Some (Printed ''Access allowed'')"
proof -
  have "''M'' \<in> {''M'', ''S'', ''U''}"
    by simp
  from main_first_match [OF assms(1,2) this assms(3,4)] assms(5) show ?thesis
    by simp
qed

theorem machine_mode_bypass_witness:
  "first_match (0x60 # replicate 63 0) (0x401 # replicate 63 0) 0x1004 0 \<and>
   \<not> entry_lock ((0x60 # replicate 63 0) ! 0) \<and>
   entry_permissions ((0x60 # replicate 63 0) ! 0) = {} \<and>
   main (0x60 # replicate 63 0) (0x401 # replicate 63 0) 0x1004 ''M'' ''W'' =
     Some (Printed ''Access allowed'')"
proof -
  have h1: "length ((0x60::int) # replicate 63 0) = 64"
    and h2: "length ((0x401::int) # replicate 63 0) = 64"
    and h3: "''W'' \<in> {''R'', ''W'', ''X''}"
    by simp_all
  have h4: "first_match (0x60 # replicate 63 0) (0x401 # replicate 63 0) 0x1004 0"
    by (simp add: first_match_def regions_def PMPRegion_init_def matches_def region_bounds_def
        count_trailing_ones_def count_trailing_ones_loop.simps)
  have h5: "\<not> entry_lock (((0x60::int) # replicate 63 0) ! 0)"
    by (simp add: entry_lock_def)
  have none: "entry_permissions (((0x60::int) # replicate 63 0) ! 0) = {}"
    by (simp add: entry_permissions_def)
  from machine_mode_bypass [OF h1 h2 h3 h4 h5] h4 h5 none show ?thesis
    by blast
qed

text \<open>
  Claim C3. When the first matching entry is locked, or the mode is Supervisor or User,
  the access is allowed if the requested operation is in that entry's permission set and
  faults otherwise.
\<close>

theorem permission_resolution:
  assumes "length pmpcfg = 64" and "length pmpaddr = 64"
    and "mode \<in> {''M'', ''S'', ''U''}" and "operation \<in> {''R'', ''W'', ''X''}"
    and "first_match pmpcfg pmpaddr phys_addr i"
    and "entry_lock (pmpcfg ! i) \<or> mode = ''S'' \<or> mode = ''U''"
  shows "main pmpcfg pmpaddr phys_addr mode operation =
    Some (Printed (if operation \<in> entry_permissions (pmpcfg ! i) then ''Access allowed''
                   else ''Access fault''))"
  using main_first_match [OF assms(1-5)] assms(6) by auto

theorem permission_resolution_witness:
  "first_match (0xEC # replicate 63 0) (0x401 # replicate 63 0) 0x1004 0 \<and>
   entry_lock ((0xEC # replicate 63 0) ! 0) \<and>
   entry_permissions ((0xEC # replicate 63 0) ! 0) = {''R'', ''W''} \<and>
   main (0xEC # replicate 63 0) (0x401 # replicate 63 0) 0x1004 ''M'' ''X'' =
     Some (Printed ''Access fault'') \<and>
   main (0xEC # replicate 63 0) (0x401 # replicate 63 0) 0x1004 ''U'' ''W'' =
     Some (Printed ''Access allowed'')"
proof -
  have h1: "length ((0xEC::int) # replicate 63 0) = 64"
    and h2: "length ((0x401::int) # replicate 63 0) = 64"
    and h3: "''M'' \<in> {''M'', ''S'', ''U''}" and h3': "''U'' \<in> {''M'', ''S'', ''U''}"
    and h4: "''X'' \<in> {''R'', ''W'', ''X''}" and h4': "''W'' \<in> {''R'', ''W'', ''X''}"
    by simp_all
  have h5: "first_match (0xEC # replicate 63 0) (0x401 # replicate 63 0) 0x1004 0"
    by (simp add: first_match_def regions_def PMPRegion_init_def matches_def region_bounds_def
        count_trailing_ones_def count_trailing_ones_loop.simps)
  have lock: "entry_lock (((0xEC::int) # replicate 63 0) ! 0)"
    by (simp add: entry_lock_def)
  then have h6: "entry_lock (((0xEC::int) # replicate 63 0) ! 0) \<or> ''M'' = ''S'' \<or> ''M'' = ''U''"
    and h6': "entry_lock (((0xEC::int) # replicate 63 0) ! 0) \<or> ''U'' = ''S'' \<or> ''U'' = ''U''"
    by simp_all
  have perms: "entry_permissions (((0xEC::int) # replicate 63 0) ! 0) = {''R'', ''W''}"
    by (auto simp add: entry_permissions_def)
  from permission_resolution [OF h1 h2 h3 h4 h5 h6] permission_resolution [OF h1 h2 h3' h4' h5 h6']
    h5 lock perms
  show ?thesis
    by simp
qed

text \<open>
  Claim C4. When no entry's region contains the address, the access faults if the mode is
  Supervisor or User and at least one of the 64 entries has a mode other than OFF, and is
  allowed otherwise.
\<close>

theorem no_match_defaults:
  assumes "length pmpcfg = 64" and "length pmpaddr = 64"
    and "mode \<in> {''M'', ''S'', ''U''}" and "operation \<in> {''R'', ''W'', ''X''}"
    and "no_match pmpcfg pmpaddr phys_addr"
  shows "main pmpcfg pmpaddr phys_addr mode operation =
    Some (Printed (if (mode = ''S'' \<or> mode = ''U'') \<and> (\<exists>j<64. \<not> entry_mode_off (pmpcfg ! j))
                   then ''Access fault'' else ''Access allowed''))"
  using assms by (rule main_no_match)

theorem no_match_defaults_witness:
  "no_match (0x6C # replicate 63 0) (0x401 # replicate 63 0) 0x2000 \<and>
   main (0x6C # replicate 63 0) (0x401 # replicate 63 0) 0x2000 ''S'' ''R'' =
     Some (Printed ''Access fault'') \<and>
   main (0x6C # replicate 63 0) (0x401 # replicate 63 0) 0x2000 ''M'' ''R'' =
     Some (Printed ''Access allowed'')"
proof -
  have h1: "length ((0x6C::int) # replicate 63 0) = 64"
    and h2: "length ((0x401::int) # replicate 63 0) = 64"
    and h3: "''S'' \<in> {''M'', ''S'', ''U''}" and h3': "''M'' \<in> {''M'', ''S'', ''U''}"
    and h4: "''R'' \<in> {''R'', ''W'', ''X''}"
    by simp_all
  have h5: "no_match (0x6C # replicate 63 0) (0x401 # replicate 63 0) 0x2000"
    by (auto simp add: no_match_def list_all_iff regions_def PMPRegion_init_def matches_def
        region_bounds_def count_trailing_ones_def count_trailing_ones_loop.simps nth_Cons')
  have "\<not> entry_mode_off (((0x6C::int) # replicate 63 0) ! 0)"
    by (simp add: entry_mode_off_def)
  then have ex: "\<exists>j<64. \<not> entry_mode_off (((0x6C::int) # replicate 63 0) ! j)"
    by (intro exI [of _ 0]) simp
  from no_match_defaults [OF h1 h2 h3 h4 h5] no_match_defaults [OF h1 h2 h3' h4 h5] h5 ex
  show ?thesis
    by simp
qed

text \<open>
  The scenario of the specification's section 8: entry 0 is a NAPOT entry for
  \<open>[0x1000, 0x1010)\<close> with Read and Write, unlocked, and all other entries are OFF.
\<close>

lemma concrete_scenario:
  "main (0x6C # replicate 63 0) (0x401 # replicate 63 0) 0x1004 ''S'' ''W'' =
     Some (Printed ''Access allowed'')"
  "main (0x6C # replicate 63 0) (0x401 # replicate 63 0) 0x1004 ''S'' ''X'' =
     Some (Printed ''Access fault'')"
  "main (0x6C # replicate 63 0) (0x401 # replicate 63 0) 0x2000 ''S'' ''R'' =
     Some (Printed ''Access fault'')"
  "main (0x6C # replicate 63 0) (0x401 # replicate 63 0) 0x2000 ''M'' ''R'' =
     Some (Printed ''Access allowed'')"
  by code_simp+

end
